theory Spec2Isabelle
  imports Main "HOL-Library.List_Lexorder" "HOL-Library.Char_ord"
begin

section \<open>Errors, sinks and strings\<close>

text \<open>
  A Go \<^verbatim>\<open>error\<close> value is identified by its message. \<open>Panic\<close> stands for a run-time
  panic (\<^verbatim>\<open>reflect.Type.Elem\<close> on a type without element, a reference to no stream):
  it unwinds every caller, which the model renders as an error that every caller hands on.
\<close>

datatype error = GoError string | Panic

text \<open>
  \<^verbatim>\<open>io.Writer\<close>: the sink is any state \<open>'s\<close> with a \<^verbatim>\<open>Write\<close> method. The byte count
  that \<^verbatim>\<open>Write\<close> returns is dropped at every call site of the repository, so the model
  keeps the new sink state and the error only. \<^verbatim>\<open>fmt.Fprintf\<close> formats into a
  buffer and issues one \<^verbatim>\<open>Write\<close> with it.
\<close>

type_synonym 's writer = "'s \<Rightarrow> string \<Rightarrow> 's \<times> error option"

abbreviation LF :: char where "LF \<equiv> CHR 0x0A"
abbreviation CR :: char where "CR \<equiv> CHR 0x0D"
abbreviation TAB :: char where "TAB \<equiv> CHR 0x09"

text \<open>\<^verbatim>\<open>strings.Split(s, sep)\<close> for a separator of one byte.\<close>

fun Split :: "string \<Rightarrow> char \<Rightarrow> string list" where
  "Split [] sep = [[]]"
| "Split (c # cs) sep =
     (if c = sep then [] # Split cs sep
      else (case Split cs sep of p # ps \<Rightarrow> (c # p) # ps | [] \<Rightarrow> [[c]]))"

text \<open>\<^verbatim>\<open>strings.Join(elems, sep)\<close>.\<close>

fun Join :: "string list \<Rightarrow> string \<Rightarrow> string" where
  "Join [] sep = []"
| "Join [x] sep = x"
| "Join (x # y # ys) sep = x @ sep @ Join (y # ys) sep"

text \<open>\<^verbatim>\<open>strings.ReplaceAll(s, old, new)\<close> for an \<^verbatim>\<open>old\<close> of one byte.\<close>

definition ReplaceAll :: "string \<Rightarrow> char \<Rightarrow> string \<Rightarrow> string" where
  "ReplaceAll s old new = concat (map (\<lambda>c. if c = old then new else [c]) s)"

text \<open>
  \<^verbatim>\<open>strings.EqualFold\<close> of the standard library. It walks the two strings byte by
  byte as long as both bytes are ASCII: equal bytes pass, and so does an upper-case
  letter \<^verbatim>\<open>A-Z\<close> against its lower-case form; when one string ends, both must have
  ended. At the first byte that is not ASCII it goes on rune by rune with the Unicode
  folding tables on what is left of the two strings; that part, which needs the tables
  of the library, is the parameter \<open>hasUnicode\<close>.
\<close>

fun EqualFold :: "(string \<Rightarrow> string \<Rightarrow> bool) \<Rightarrow> string \<Rightarrow> string \<Rightarrow> bool" where
  "EqualFold hasUnicode [] t = (t = [])"
| "EqualFold hasUnicode (sr # s) [] = False"
| "EqualFold hasUnicode (sr # s) (tr # t) =
     (if (of_char sr :: nat) \<ge> 128 \<or> (of_char tr :: nat) \<ge> 128
      then hasUnicode (sr # s) (tr # t)
      else if tr = sr then EqualFold hasUnicode s t
      else (let (sr', tr') = (if tr < sr then (tr, sr) else (sr, tr))
            in if CHR ''A'' \<le> sr' \<and> sr' \<le> CHR ''Z''
                  \<and> (of_char tr' :: nat) = of_char sr' + (of_char (CHR ''a'') - of_char (CHR ''A''))
               then EqualFold hasUnicode s t
               else False))"

text \<open>\<^verbatim>\<open>contains\<close> of the table renderer: a linear search.\<close>

fun contains :: "string list \<Rightarrow> string \<Rightarrow> bool" where
  "contains [] element = False"
| "contains (elt # array) element = (if elt = element then True else contains array element)"

section \<open>The table renderer\<close>

subsection \<open>Types as \<^verbatim>\<open>reflect\<close> shows them\<close>

text \<open>
  A \<^verbatim>\<open>reflect.Type\<close> is a kind, a name (what \<^verbatim>\<open>Name()\<close> returns, empty for an
  unnamed type) and, by kind, an element type or a list of fields. Kinds with neither are \<open>basic_kind\<close>; kinds on which
  \<^verbatim>\<open>Elem()\<close> is defined are \<open>elem_kind\<close> (for a map, the element is the value type).
  Types are finite trees here: a cyclic type is not represented.
\<close>

datatype basic_kind =
    BoolK | IntK | Int8K | Int16K | Int32K | Int64K
  | UintK | Uint8K | Uint16K | Uint32K | Uint64K | UintptrK
  | Float32K | Float64K | Complex64K | Complex128K
  | StringK | FuncK | InterfaceK | UnsafePointerK

datatype elem_kind = ArrayK | ChanK | MapK | PtrK | SliceK

text \<open>
  A \<^verbatim>\<open>reflect.StructTag\<close> in parsed form: the key/value pairs in the order they are
  written, the first pair of a key being the one \<^verbatim>\<open>Lookup\<close> finds.
\<close>

type_synonym struct_tag = "(string \<times> string) list"

datatype rtype =
    Basic basic_kind string
  | Elem elem_kind string rtype
  | Struct string "sfield list"
and sfield = Field (Name: string) (Tag: struct_tag) (Type: rtype)

definition Lookup :: "struct_tag \<Rightarrow> string \<Rightarrow> string option" where
  "Lookup tag key = map_of tag key"

definition Get :: "struct_tag \<Rightarrow> string \<Rightarrow> string" where
  "Get tag key = (case Lookup tag key of Some v \<Rightarrow> v | None \<Rightarrow> [])"

subsection \<open>Names, kinds, attributes and descriptions of a field\<close>

definition structFieldName :: "sfield \<Rightarrow> string list \<Rightarrow> string" where
  "structFieldName f parts =
     (if length parts > 0 \<and> hd parts \<noteq> [] \<and> hd parts \<noteq> ''-'' then hd parts else Name f)"

fun structFieldType :: "rtype \<Rightarrow> string list \<Rightarrow> error + string" where
  "structFieldType (Basic k n) parts =
     (if k = BoolK then Inr ''bool''
      else if k \<in> {IntK, Int8K, Int16K, Int32K, Int64K, UintK, Uint8K, Uint16K, Uint32K,
                    Uint64K, Float32K, Float64K} then Inr ''number''
      else if k = StringK then Inr ''string''
      else Inl (GoError (''unsupported field type '' @ n)))"
| "structFieldType (Elem k n t) parts =
     (if k = ArrayK \<or> k = SliceK then Inr ''Array''
      else if k = PtrK then structFieldType t parts
      else Inl (GoError (''unsupported field type '' @ n)))"
| "structFieldType (Struct n fs) parts =
     (if n = [] \<or> contains parts ''embed'' then Inr ''Object'' else Inr n)"

definition structFieldAttributes :: "bool \<Rightarrow> bool \<Rightarrow> string" where
  "structFieldAttributes readonly optional =
     (let result = [];
          result = (if readonly then result @ [''readonly''] else result);
          result = (if optional then result @ [''optional''] else result)
      in if length result = 0 then [] else ''('' @ Join result '' '' @ '')'')"

definition structDescription :: "sfield \<Rightarrow> string" where
  "structDescription f = Get (Tag f) ''help''"

subsection \<open>Writing the rows\<close>

text \<open>
  The first lines of \<^verbatim>\<open>writeStructField\<close>: the tag \<^verbatim>\<open>doc\<close> if the field has one,
  the tag \<^verbatim>\<open>json\<close> otherwise, split at the commas.
\<close>

definition fieldParts :: "sfield \<Rightarrow> string list" where
  "fieldParts f =
     (let tag = (case Lookup (Tag f) ''doc'' of Some v \<Rightarrow> v | None \<Rightarrow> Get (Tag f) ''json'')
      in Split tag (CHR '',''))"

text \<open>The format \<^verbatim>\<open>"| %s | %s %s | %s |\n"\<close> of a row.\<close>

definition fieldRow :: "string \<Rightarrow> string \<Rightarrow> string \<Rightarrow> string \<Rightarrow> string" where
  "fieldRow name sType attribs description =
     ''| '' @ name @ '' | '' @ sType @ '' '' @ attribs @ '' | '' @ description @ '' |'' @ [LF]"

text \<open>
  \<open>writeStructFields\<close> first steps through element types until it stands on a structure
  (\<^verbatim>\<open>Elem()\<close> panics on a type that has none), then \<open>fieldsLoop\<close>, its \<^verbatim>\<open>for\<close> loop,
  writes the fields in order and stops at the first error.
\<close>

function (sequential)
  writeStructFields :: "'s writer \<Rightarrow> 's \<Rightarrow> string \<Rightarrow> rtype \<Rightarrow> 's \<times> error option"
  and fieldsLoop :: "'s writer \<Rightarrow> 's \<Rightarrow> string \<Rightarrow> sfield list \<Rightarrow> 's \<times> error option"
  and writeStructField :: "'s writer \<Rightarrow> 's \<Rightarrow> string \<Rightarrow> sfield \<Rightarrow> 's \<times> error option"
where
  "writeStructFields w s namePrefix (Basic k n) = (s, Some Panic)"
| "writeStructFields w s namePrefix (Elem k n t) = writeStructFields w s namePrefix t"
| "writeStructFields w s namePrefix (Struct n fs) = fieldsLoop w s namePrefix fs"
| "fieldsLoop w s namePrefix [] = (s, None)"
| "fieldsLoop w s namePrefix (f # fs) =
     (case writeStructField w s namePrefix f of
        (s', Some err) \<Rightarrow> (s', Some err)
      | (s', None) \<Rightarrow> fieldsLoop w s' namePrefix fs)"
| "writeStructField w s namePrefix f =
     (let parts = fieldParts f;
          name = namePrefix @ structFieldName f parts
      in case structFieldType (Type f) parts of
           Inl err \<Rightarrow> (s, Some err)
         | Inr sType \<Rightarrow>
             (let description = structDescription f;
                  attribs = structFieldAttributes (contains parts ''readonly'')
                              (contains parts ''omitempty'')
              in case w s (fieldRow name sType attribs description) of
                   (s', Some err) \<Rightarrow> (s', Some err)
                 | (s', None) \<Rightarrow>
                     (if sType = ''Object'' \<or> sType = ''Array''
                      then writeStructFields w s'
                             (name @ (if sType = ''Object'' then ''.'' else ''[].'')) (Type f)
                      else (s', None))))"
  by pat_completeness auto
termination
proof -
  have sz: "size (Type f) < size f" for f by (cases f) simp
  show ?thesis
    apply (relation "measure (\<lambda>x. case x of
        Inl (w, s, p, t) \<Rightarrow> 2 * size t
      | Inr (Inl (w, s, p, fs)) \<Rightarrow> 2 * size_list size fs + 1
      | Inr (Inr (w, s, p, f)) \<Rightarrow> 2 * size f)")
    using sz by (auto simp: less_Suc_eq_le intro: less_imp_le)
qed

text \<open>The loop \<^verbatim>\<open>for t.Kind() == reflect.Ptr { t = t.Elem() }\<close>.\<close>

fun derefPtr :: "rtype \<Rightarrow> rtype" where
  "derefPtr (Elem k n t) = (if k = PtrK then derefPtr t else Elem k n t)"
| "derefPtr t = t"

definition tableHeader :: string where
  "tableHeader = [LF] @ ''| Field | Type | Description |'' @ [LF]
                      @ ''| ----- | ---- | ----------- |'' @ [LF]"

definition WriteStructTable :: "'s writer \<Rightarrow> 's \<Rightarrow> rtype \<Rightarrow> 's \<times> error option" where
  "WriteStructTable w s v =
     (let t = derefPtr v
      in case w s tableHeader of
           (s', Some err) \<Rightarrow> (s', Some err)
         | (s', None) \<Rightarrow> writeStructFields w s' [] t)"

section \<open>The transport recorder\<close>

subsection \<open>Streams, messages and the world\<close>

text \<open>
  An \<^verbatim>\<open>io.ReadCloser\<close> is an object: \<open>pending\<close> are the bytes it has still to
  deliver, \<open>failure\<close> is what its \<^verbatim>\<open>Read\<close> reports once they are delivered (\<open>None\<close>
  is \<^verbatim>\<open>io.EOF\<close>), \<open>closed\<close> records a call of \<^verbatim>\<open>Close\<close>. Streams live in a
  store and a body is a reference into it (\<open>None\<close> is the nil body), so that closing
  one stream and substituting another can be told apart.
\<close>

record stream =
  pending :: string
  failure :: "error option"
  closed :: bool

text \<open>
  \<^verbatim>\<open>http.Header\<close> maps a name to its values; the association list holds each name
  once.
\<close>

type_synonym header = "(string \<times> string list) list"

record message =
  Header :: header
  Body :: "nat option"

record request = message +
  Method :: string
  RequestURI :: string

record response = message +
  Proto :: string
  Status :: string

text \<open>
  \<^verbatim>\<open>http.RoundTripper\<close>: the underlying transport may consume streams and creates the
  one of the response body; it returns an error or a response.
\<close>

type_synonym roundTripper = "stream list \<Rightarrow> request \<Rightarrow> stream list \<times> (error + response)"

type_synonym headersSkipper = "string \<Rightarrow> string list \<Rightarrow> bool"

record recorder =
  Underlying :: "roundTripper option"
  SkipHeaders :: "headersSkipper option"
  RequestPreamble :: string
  RequestPostamble :: string
  ResponsePreamble :: string
  ResponsePostamble :: string

text \<open>
  The world a call acts on: the sink behind \<^verbatim>\<open>Writer\<close>, the store of streams, and
  the log of the requests that were handed to the underlying transport.
\<close>

record 's world =
  sink :: 's
  streams :: "stream list"
  calls :: "request list"

definition Write :: "'s writer \<Rightarrow> string \<Rightarrow> 's world \<Rightarrow> 's world \<times> error option" where
  "Write w p st = (case w (sink st) p of (s', err) \<Rightarrow> (st\<lparr>sink := s'\<rparr>, err))"

text \<open>
  \<^verbatim>\<open>ioutil.ReadAll\<close> drains the stream and returns what it delivered with its
  failure, if any.
\<close>

definition ReadAll :: "nat \<Rightarrow> 's world \<Rightarrow> 's world \<times> string \<times> error option" where
  "ReadAll a st =
     (if a < length (streams st)
      then (st\<lparr>streams := (streams st)[a := (streams st ! a)\<lparr>pending := []\<rparr>]\<rparr>,
            pending (streams st ! a), failure (streams st ! a))
      else (st, [], Some Panic))"

definition Close :: "nat \<Rightarrow> 's world \<Rightarrow> 's world" where
  "Close a st =
     (if a < length (streams st)
      then st\<lparr>streams := (streams st)[a := (streams st ! a)\<lparr>closed := True\<rparr>]\<rparr>
      else st)"

text \<open>\<^verbatim>\<open>ioutil.NopCloser(strings.NewReader(string(data)))\<close>: a new stream over \<open>data\<close>.\<close>

definition NopCloser :: "string \<Rightarrow> 's world \<Rightarrow> 's world \<times> nat" where
  "NopCloser data st =
     (st\<lparr>streams := streams st @ [\<lparr>pending = data, failure = None, closed = False\<rparr>]\<rparr>,
      length (streams st))"

subsection \<open>Skipping headers\<close>

text \<open>
  The method \<^verbatim>\<open>SkipHeaders\<close> of the type \<^verbatim>\<open>SkipHeaders\<close>, a list of names; its
  first argument is the Unicode part of \<open>EqualFold\<close>.
\<close>

fun SkipHeaders_SkipHeaders ::
  "(string \<Rightarrow> string \<Rightarrow> bool) \<Rightarrow> string list \<Rightarrow> headersSkipper" where
  "SkipHeaders_SkipHeaders hasUnicode [] header vs = False"
| "SkipHeaders_SkipHeaders hasUnicode (hdr # s) header vs =
     (if EqualFold hasUnicode hdr header then True
      else SkipHeaders_SkipHeaders hasUnicode s header vs)"

text \<open>
  The method \<^verbatim>\<open>skipHeaders\<close> of the recorder builds the exclusion map; \<open>None\<close> is
  the nil map.
\<close>

definition skipHeaders :: "recorder \<Rightarrow> header \<Rightarrow> (string \<rightharpoonup> bool) option" where
  "skipHeaders t h =
     (case SkipHeaders t of
        None \<Rightarrow> None
      | Some sk \<Rightarrow>
          Some (foldl (\<lambda>result (k, v). if sk k v then result(k \<mapsto> True) else result)
                  Map.empty h))"

text \<open>The lookup \<^verbatim>\<open>exclude[key]\<close> in a map that may be nil.\<close>

definition excluded :: "(string \<rightharpoonup> bool) option \<Rightarrow> string \<Rightarrow> bool" where
  "excluded exclude key =
     (case exclude of
        None \<Rightarrow> False
      | Some m \<Rightarrow> (case m key of Some b \<Rightarrow> b | None \<Rightarrow> False))"

text \<open>
  \<^verbatim>\<open>http.Header.WriteSubset\<close> of the standard library, into a \<^verbatim>\<open>strings.Builder\<close>
  (which never fails): of the names that are not excluded, sorted, those that are valid
  header field names (not empty, made of token characters only; the others are passed
  over), and for each of their values a line \<^verbatim>\<open>name: value\<close> ending in CR LF, where
  line breaks inside a value have become spaces and the blanks around it are cut off.
\<close>

definition isTokenRune :: "char \<Rightarrow> bool" where
  "isTokenRune c =
     (c \<in> set (''!#$%&*+-.^_|~'' @ [CHR 0x27, CHR 0x60] @ ''0123456789''
                @ ''ABCDEFGHIJKLMNOPQRSTUVWXYZ'' @ ''abcdefghijklmnopqrstuvwxyz''))"

definition ValidHeaderFieldName :: "string \<Rightarrow> bool" where
  "ValidHeaderFieldName v = (length v \<noteq> 0 \<and> list_all isTokenRune v)"

definition isSpace :: "char \<Rightarrow> bool" where
  "isSpace c = (c = CHR '' '' \<or> c = TAB \<or> c = LF \<or> c = CR)"

definition headerValue :: "string \<Rightarrow> string" where
  "headerValue v =
     (let v = map (\<lambda>c. if c = LF \<or> c = CR then CHR '' '' else c) v
      in rev (dropWhile isSpace (rev (dropWhile isSpace v))))"

definition headerLines :: "string \<times> string list \<Rightarrow> string" where
  "headerLines kv = concat (map (\<lambda>v. fst kv @ '': '' @ headerValue v @ [CR, LF]) (snd kv))"

definition WriteSubset :: "header \<Rightarrow> (string \<rightharpoonup> bool) option \<Rightarrow> string" where
  "WriteSubset h exclude =
     concat (map headerLines
               (filter (\<lambda>kv. ValidHeaderFieldName (fst kv))
                  (sort_key fst (filter (\<lambda>kv. \<not> excluded exclude (fst kv)) h))))"

subsection \<open>Recording\<close>

definition writeBody ::
  "'s writer \<Rightarrow> 's world \<Rightarrow> nat option \<Rightarrow> 's world \<times> nat option \<times> error option" where
  "writeBody w st r =
     (case r of
        None \<Rightarrow> (st, r, None)
      | Some a \<Rightarrow>
          (case ReadAll a st of
             (st1, data, err) \<Rightarrow>
               if err \<noteq> None then (st1, r, err)
               else (case Write w data st1 of
                       (st2, Some err2) \<Rightarrow> (st2, r, err)
                     | (st2, None) \<Rightarrow>
                         (case NopCloser data (Close a st2) of
                            (st3, b) \<Rightarrow> (st3, Some b, None)))))"

definition fence :: string where
  "fence = [CHR 0x60, CHR 0x60, CHR 0x60]"

definition recordRequest ::
  "'s writer \<Rightarrow> recorder \<Rightarrow> 's world \<Rightarrow> request \<Rightarrow> 's world \<times> request \<times> error option" where
  "recordRequest w t st req =
     (case Write w (RequestPreamble t) st of
        (st1, Some err) \<Rightarrow> (st1, req, Some err)
      | (st1, None) \<Rightarrow>
     (case Write w (fence @ [LF] @ Method req @ '' '' @ RequestURI req @ [LF]) st1 of
        (st2, Some err) \<Rightarrow> (st2, req, Some err)
      | (st2, None) \<Rightarrow>
     (let buf = WriteSubset (Header req) (skipHeaders t (Header req));
          headers = ReplaceAll buf CR []
      in case Write w (headers @ [LF]) st2 of
        (st3, Some err) \<Rightarrow> (st3, req, Some err)
      | (st3, None) \<Rightarrow>
     (case writeBody w st3 (Body req) of
        (st4, b, Some err) \<Rightarrow> (st4, req\<lparr>Body := b\<rparr>, Some err)
      | (st4, b, None) \<Rightarrow>
     (case Write w ([LF] @ fence @ [LF]) st4 of
        (st5, Some err) \<Rightarrow> (st5, req\<lparr>Body := b\<rparr>, Some err)
      | (st5, None) \<Rightarrow>
     (case Write w (RequestPostamble t) st5 of
        (st6, err) \<Rightarrow> (st6, req\<lparr>Body := b\<rparr>, err)))))))"

definition recordResponse ::
  "'s writer \<Rightarrow> recorder \<Rightarrow> 's world \<Rightarrow> response \<Rightarrow> 's world \<times> response \<times> error option" where
  "recordResponse w t st res =
     (case Write w (ResponsePreamble t) st of
        (st1, Some err) \<Rightarrow> (st1, res, Some err)
      | (st1, None) \<Rightarrow>
     (case Write w (fence @ [LF] @ Proto res @ '' '' @ Status res @ [LF]) st1 of
        (st2, Some err) \<Rightarrow> (st2, res, Some err)
      | (st2, None) \<Rightarrow>
     (let buf = WriteSubset (Header res) (skipHeaders t (Header res));
          headers = ReplaceAll buf CR []
      in case Write w (headers @ [LF]) st2 of
        (st3, Some err) \<Rightarrow> (st3, res, Some err)
      | (st3, None) \<Rightarrow>
     (case writeBody w st3 (Body res) of
        (st4, b, Some err) \<Rightarrow> (st4, res\<lparr>Body := b\<rparr>, Some err)
      | (st4, b, None) \<Rightarrow>
     (case Write w ([LF] @ fence @ [LF]) st4 of
        (st5, Some err) \<Rightarrow> (st5, res\<lparr>Body := b\<rparr>, Some err)
      | (st5, None) \<Rightarrow>
     (case Write w (ResponsePostamble t) st5 of
        (st6, err) \<Rightarrow> (st6, res\<lparr>Body := b\<rparr>, err)))))))"

text \<open>
  \<^verbatim>\<open>transport()\<close>: the configured transport, or \<^verbatim>\<open>http.DefaultTransport\<close>, which
  is a parameter here.
\<close>

definition transport :: "roundTripper \<Rightarrow> recorder \<Rightarrow> roundTripper" where
  "transport DefaultTransport t =
     (case Underlying t of Some u \<Rightarrow> u | None \<Rightarrow> DefaultTransport)"

text \<open>
  \<^verbatim>\<open>RoundTrip\<close> returns the pair of Go, a response or nil and an error or nil, next
  to the world and the request it has worked on.
\<close>

definition RoundTrip ::
  "roundTripper \<Rightarrow> 's writer \<Rightarrow> recorder \<Rightarrow> 's world \<Rightarrow> request
     \<Rightarrow> 's world \<times> request \<times> response option \<times> error option" where
  "RoundTrip DefaultTransport w t st req =
     (case recordRequest w t st req of
        (st1, req1, Some err) \<Rightarrow> (st1, req1, None, Some err)
      | (st1, req1, None) \<Rightarrow>
     (case transport DefaultTransport t (streams st1) req1 of
        (h, Inl err) \<Rightarrow> (st1\<lparr>streams := h, calls := calls st1 @ [req1]\<rparr>, req1, None, Some err)
      | (h, Inr resp) \<Rightarrow>
     (case recordResponse w t (st1\<lparr>streams := h, calls := calls st1 @ [req1]\<rparr>) resp of
        (st2, resp1, Some err) \<Rightarrow> (st2, req1, None, Some err)
      | (st2, resp1, None) \<Rightarrow> (st2, req1, Some resp1, None))))"

subsection \<open>Two sinks\<close>

text \<open>
  A sink that keeps every chunk it is given, and a sink whose successive calls of
  \<^verbatim>\<open>Write\<close> follow a script: \<open>None\<close> accepts the bytes, \<open>Some e\<close> refuses them with
  \<open>e\<close>; past the end of the script every write is accepted.
\<close>

definition chunkSink :: "string list writer" where
  "chunkSink s p = (s @ [p], None)"

fun scriptedSink :: "(string \<times> error option list) writer" where
  "scriptedSink (buf, []) p = ((buf @ p, []), None)"
| "scriptedSink (buf, None # script) p = ((buf @ p, script), None)"
| "scriptedSink (buf, Some e # script) p = ((buf, script), Some e)"

section \<open>Inputs of the examples\<close>

text \<open>The structure that the repository's own example renders.\<close>

definition exampleFields :: "sfield list" where
  "exampleFields =
     [Field ''Hello'' [] (Basic UintK ''uint''), Field ''World'' [] (Basic StringK ''string'')]"

definition exampleStruct :: rtype where
  "exampleStruct = Elem PtrK [] (Struct []
     [Field ''Hello'' [(''help'', ''hello is a fine field'')] (Basic StringK ''string''),
      Field ''World'' [] (Basic IntK ''int''),
      Field ''Obj'' [(''help'', ''nested field'')] (Elem PtrK [] (Struct [] exampleFields)),
      Field ''Array'' [(''help'', ''array field'')] (Elem SliceK [] (Struct [] exampleFields))])"

text \<open>
  \<^verbatim>\<open>Meta *Info\<close> with \<^verbatim>\<open>type Info struct { X int }\<close>, the same field with a type
  called \<^verbatim>\<open>Object\<close> and with a type called \<^verbatim>\<open>Array\<close>, a field with both tags,
  and a field with none.
\<close>

definition namedField :: sfield where
  "namedField =
     Field ''Meta'' [] (Elem PtrK [] (Struct ''Info'' [Field ''X'' [] (Basic IntK ''int'')]))"

definition objectNamedField :: sfield where
  "objectNamedField = Field ''Meta'' [] (Struct ''Object'' [Field ''X'' [] (Basic IntK ''int'')])"

definition arrayNamedField :: sfield where
  "arrayNamedField = Field ''Meta'' [] (Struct ''Array'' [Field ''X'' [] (Basic IntK ''int'')])"

text \<open>\<^verbatim>\<open>type T struct { A int; Tags []string; B int }\<close>.\<close>

definition brokenStruct :: rtype where
  "brokenStruct = Struct ''T''
     [Field ''A'' [] (Basic IntK ''int''),
      Field ''Tags'' [] (Elem SliceK [] (Basic StringK ''string'')),
      Field ''B'' [] (Basic IntK ''int'')]"

definition taggedField :: sfield where
  "taggedField = Field ''UserID''
     [(''json'', ''user_id,omitempty''), (''doc'', ''id,readonly,omitempty'')]
     (Basic StringK ''string'')"

definition plainField :: sfield where
  "plainField = Field ''Hello'' [] (Basic StringK ''string'')"

text \<open>
  The exchange of the repository's example: a server that answers every request with a
  JSON body, a recorder that skips \<^verbatim>\<open>Date\<close>, a request with the body
  \<^verbatim>\<open>some body\<close> in stream 0, and a world whose sink follows \<open>script\<close>. All names
  of the examples are ASCII, so the Unicode part of \<open>EqualFold\<close> is never reached in
  them; \<open>noUnicode\<close> stands in its place.
\<close>

definition exampleServer :: roundTripper where
  "exampleServer h req =
     (h @ [\<lparr>pending = ''{\"foo\": \"bar\"}'', failure = None, closed = False\<rparr>],
      Inr \<lparr>Header = [(''Date'', [''Mon, 01 Jan 2024 00:00:00 GMT'']),
                      (''Content-Type'', [''application/json''])],
           Body = Some (length h), Proto = ''HTTP/1.1'', Status = ''200 OK''\<rparr>)"

definition noUnicode :: "string \<Rightarrow> string \<Rightarrow> bool" where
  "noUnicode s t = False"

definition exampleRecorder :: recorder where
  "exampleRecorder =
     \<lparr>Underlying = Some exampleServer,
      SkipHeaders = Some (SkipHeaders_SkipHeaders noUnicode [''Date'']),
      RequestPreamble = ''## Request'' @ [LF],
      RequestPostamble = ''that was the request'' @ [LF],
      ResponsePreamble = ''## Response'' @ [LF],
      ResponsePostamble = ''that was the response'' @ [LF]\<rparr>"

definition exampleRequest :: request where
  "exampleRequest =
     \<lparr>Header = [(''Content-Type'', [''application/json;charset=utf8''])], Body = Some 0,
      Method = ''GET'', RequestURI = ''/some_endpoint''\<rparr>"

definition exampleWorld :: "error option list \<Rightarrow> (string \<times> error option list) world" where
  "exampleWorld script =
     \<lparr>sink = ([], script),
      streams = [\<lparr>pending = ''some body'', failure = None, closed = False\<rparr>],
      calls = []\<rparr>"

text \<open>What the sink holds once the request of the example is recorded, and the world then.\<close>

definition requestTranscript :: string where
  "requestTranscript =
     ''## Request'' @ [LF] @ fence @ [LF] @ ''GET /some_endpoint'' @ [LF] @
     ''Content-Type: application/json;charset=utf8'' @ [LF] @ [LF] @
     ''some body'' @ [LF] @ fence @ [LF] @ ''that was the request'' @ [LF]"

definition recordedWorld :: "error option list \<Rightarrow> (string \<times> error option list) world" where
  "recordedWorld script =
     \<lparr>sink = (requestTranscript, script),
      streams = [\<lparr>pending = [], failure = None, closed = True\<rparr>,
                 \<lparr>pending = ''some body'', failure = None, closed = False\<rparr>],
      calls = []\<rparr>"



section \<open>The order of the rows, as the specification words it\<close>

text \<open>
  The specification's account of the table: the fields of a type are those of the
  structure reached through its indirections and sequences; every field gives one row;
  the row of a field of kind \<^verbatim>\<open>Object\<close> is followed at once by the rows of its own
  fields under the prefix \<open>prefix + name + "."\<close>, the row of a field of kind
  \<^verbatim>\<open>Array\<close> by the rows of the fields of its elements under \<open>prefix + name + "[]."\<close>,
  and only then come the fields declared after it. A field whose type has no kind has
  no row.
\<close>

fun spec_fields :: "rtype \<Rightarrow> sfield list" where
  "spec_fields (Basic k n) = []"
| "spec_fields (Elem k n t) = spec_fields t"
| "spec_fields (Struct n fs) = fs"

function spec_rows :: "string \<Rightarrow> sfield list \<Rightarrow> string list" where
  "spec_rows prefix [] = []"
| "spec_rows prefix (f # fs) =
     (case structFieldType (Type f) (fieldParts f) of
        Inl err \<Rightarrow> spec_rows prefix fs
      | Inr kind \<Rightarrow>
          (let name = prefix @ structFieldName f (fieldParts f);
               row = fieldRow name kind
                       (structFieldAttributes (contains (fieldParts f) ''readonly'')
                          (contains (fieldParts f) ''omitempty''))
                       (structDescription f)
           in row #
              (if kind = ''Object'' then spec_rows (name @ ''.'') (spec_fields (Type f))
               else if kind = ''Array'' then spec_rows (name @ ''[].'') (spec_fields (Type f))
               else [])
              @ spec_rows prefix fs))"
  by pat_completeness auto
termination
proof (relation "measure (\<lambda>(p, fs). size_list size fs)")
  have inner: "size_list size (spec_fields (Type f)) < size_list size (f # fs)"
    for f :: sfield and fs :: "sfield list"
  proof -
    have "size_list size (spec_fields t) \<le> size t" for t
      by (induction t rule: spec_fields.induct) simp_all
    moreover have "size (Type f) < size f" by (cases f) simp
    ultimately show ?thesis
      using le_less_trans[of "size_list size (spec_fields (Type f))" "size (Type f)" "size f"]
      by simp
  qed
  show "wf (measure (\<lambda>(p, fs). size_list size fs))" by simp
  show "((prefix, fs), (prefix, f # fs)) \<in> measure (\<lambda>(p, fs). size_list size fs)"
    for prefix :: string and f :: sfield and fs :: "sfield list"
    by simp
  show "((x @ ''.'', spec_fields (Type f)), (prefix, f # fs))
          \<in> measure (\<lambda>(p, fs). size_list size fs)"
    for prefix x :: string and f :: sfield and fs :: "sfield list"
    using inner[of f fs] by simp
  show "((x @ ''[].'', spec_fields (Type f)), (prefix, f # fs))
          \<in> measure (\<lambda>(p, fs). size_list size fs)"
    for prefix x :: string and f :: sfield and fs :: "sfield list"
    using inner[of f fs] by simp
qed simp

text \<open>
  The specification's account of a render that fails: a type can be rendered when a
  structure is reached through its indirections and sequences, every field of that
  structure has a kind, and the type of every field of kind \<^verbatim>\<open>Object\<close> or
  \<^verbatim>\<open>Array\<close> can be rendered in its turn.
\<close>

fun spec_renders :: "rtype \<Rightarrow> bool"
  and spec_field_renders :: "sfield \<Rightarrow> bool" where
  "spec_renders (Basic k n) = False"
| "spec_renders (Elem k n t) = spec_renders t"
| "spec_renders (Struct n fs) = list_all spec_field_renders fs"
| "spec_field_renders (Field name tag ty) =
     (case structFieldType ty (fieldParts (Field name tag ty)) of
        Inl err \<Rightarrow> False
      | Inr kind \<Rightarrow> if kind = ''Object'' \<or> kind = ''Array'' then spec_renders ty else True)"

section \<open>Facts about the table renderer\<close>

lemmas table_defs =
  writeStructField.simps fieldParts_def Lookup_def Get_def structFieldName_def
  structFieldAttributes_def structDescription_def fieldRow_def chunkSink_def
  WriteStructTable_def

lemma structFieldType_derefPtr: "structFieldType t parts = structFieldType (derefPtr t) parts"
  by (induction t rule: derefPtr.induct) simp_all

lemma spec_fields_derefPtr: "spec_fields (derefPtr t) = spec_fields t"
  by (induction t rule: derefPtr.induct) simp_all

text \<open>A field that has a kind: one write of its row, then the nested fields if any.\<close>

lemma writeStructField_unfold:
  "structFieldType (Type f) (fieldParts f) = Inr sType \<Longrightarrow>
   writeStructField w s p f =
     (case w s (fieldRow (p @ structFieldName f (fieldParts f)) sType
                  (structFieldAttributes (contains (fieldParts f) ''readonly'')
                     (contains (fieldParts f) ''omitempty''))
                  (structDescription f)) of
        (s', Some err) \<Rightarrow> (s', Some err)
      | (s', None) \<Rightarrow>
          (if sType = ''Object'' \<or> sType = ''Array''
           then writeStructFields w s'
                  (p @ structFieldName f (fieldParts f) @
                     (if sType = ''Object'' then ''.'' else ''[].''))
                  (Type f)
           else (s', None)))"
  by (auto simp: Let_def split: prod.splits option.splits)

lemma writeStructField_unsupported:
  "structFieldType (Type f) (fieldParts f) = Inl e \<Longrightarrow> writeStructField w s p f = (s, Some e)"
  by (simp add: Let_def)

declare writeStructField.simps [simp del]

lemma spec_rows_append: "spec_rows p (f # fs) = spec_rows p [f] @ spec_rows p fs"
  by (simp add: Let_def split: sum.splits)

text \<open>
  On the sink that keeps its chunks, what a run appends is an initial segment of the
  rows of the specification, and all of them when the run ends without error; the
  three functions are handled in one induction along their calls.
\<close>

lemma rows_prefix:
  "w = chunkSink \<Longrightarrow>
     \<exists>written rest. fst (writeStructFields w s p t) = s @ written \<and>
        spec_rows p (spec_fields t) = written @ rest \<and>
        (snd (writeStructFields w s p t) = None \<longrightarrow> rest = [])"
  "w = chunkSink \<Longrightarrow>
     \<exists>written rest. fst (fieldsLoop w s p fs) = s @ written \<and>
        spec_rows p fs = written @ rest \<and>
        (snd (fieldsLoop w s p fs) = None \<longrightarrow> rest = [])"
  "w = chunkSink \<Longrightarrow>
     \<exists>written rest. fst (writeStructField w s p f) = s @ written \<and>
        spec_rows p [f] = written @ rest \<and>
        (snd (writeStructField w s p f) = None \<longrightarrow> rest = [])"
proof (induction w s p t and w s p fs and w s p f
        rule: writeStructFields_fieldsLoop_writeStructField.induct)
  case (1 w s namePrefix k n)
  then show ?case by simp
next
  case (2 w s namePrefix k n t)
  then show ?case by simp
next
  case (3 w s namePrefix n fs)
  then show ?case by simp
next
  case (4 w s namePrefix)
  then show ?case by simp
next
  case (5 w s namePrefix f fs)
  obtain s1 e where f: "writeStructField w s namePrefix f = (s1, e)"
    by (cases "writeStructField w s namePrefix f")
  from "5.IH"(1)[OF "5.prems"] f obtain r1 rest1 where
    s1: "s1 = s @ r1" and sp1: "spec_rows namePrefix [f] = r1 @ rest1"
    and done1: "e = None \<longrightarrow> rest1 = []"
    by auto
  show ?case
  proof (cases e)
    case None
    from "5.IH"(2)[OF f[symmetric] None "5.prems"] obtain r2 rest2 where
      s2: "fst (fieldsLoop w s1 namePrefix fs) = s1 @ r2"
      and sp2: "spec_rows namePrefix fs = r2 @ rest2"
      and done2: "snd (fieldsLoop w s1 namePrefix fs) = None \<longrightarrow> rest2 = []"
      by auto
    from None done1 sp1 have "spec_rows namePrefix [f] = r1" by simp
    with sp2 have x: "spec_rows namePrefix (f # fs) = (r1 @ r2) @ rest2"
      using spec_rows_append[of namePrefix f fs] by simp
    have y: "fst (fieldsLoop w s namePrefix (f # fs)) = s @ (r1 @ r2)"
      using f None s1 s2 by simp
    have z: "snd (fieldsLoop w s namePrefix (f # fs)) = None \<longrightarrow> rest2 = []"
      using f None done2 by simp
    show ?thesis
    proof (intro exI conjI)
      show "fst (fieldsLoop w s namePrefix (f # fs)) = s @ (r1 @ r2)" by (rule y)
      show "spec_rows namePrefix (f # fs) = (r1 @ r2) @ rest2" by (rule x)
      show "snd (fieldsLoop w s namePrefix (f # fs)) = None \<longrightarrow> rest2 = []" by (rule z)
    qed
  next
    case (Some err)
    have x: "spec_rows namePrefix (f # fs) = r1 @ (rest1 @ spec_rows namePrefix fs)"
      using spec_rows_append[of namePrefix f fs] sp1 by simp
    have y: "fst (fieldsLoop w s namePrefix (f # fs)) = s @ r1"
      using f Some s1 by simp
    have z: "snd (fieldsLoop w s namePrefix (f # fs)) = None
               \<longrightarrow> rest1 @ spec_rows namePrefix fs = []"
      using f Some by simp
    show ?thesis
    proof (intro exI conjI)
      show "fst (fieldsLoop w s namePrefix (f # fs)) = s @ r1" by (rule y)
      show "spec_rows namePrefix (f # fs) = r1 @ (rest1 @ spec_rows namePrefix fs)" by (rule x)
      show "snd (fieldsLoop w s namePrefix (f # fs)) = None
              \<longrightarrow> rest1 @ spec_rows namePrefix fs = []" by (rule z)
    qed
  qed
next
  case (6 w s namePrefix f)
  show ?case
  proof (cases "structFieldType (Type f) (fieldParts f)")
    case (Inl e)
    then show ?thesis by (simp add: writeStructField_unsupported)
  next
    case (Inr sType)
    let ?name = "namePrefix @ structFieldName f (fieldParts f)"
    let ?row = "fieldRow ?name sType
                  (structFieldAttributes (contains (fieldParts f) ''readonly'')
                     (contains (fieldParts f) ''omitempty''))
                  (structDescription f)"
    have wr: "w s ?row = (s @ [?row], None)"
      using "6.prems" by (simp add: chunkSink_def)
    show ?thesis
    proof (cases "sType = ''Object'' \<or> sType = ''Array''")
      case True
      let ?sub = "writeStructFields w (s @ [?row])
                   (?name @ (if sType = ''Object'' then ''.'' else ''[].'')) (Type f)"
      from "6.IH"[OF refl refl Inr refl refl wr[symmetric] refl True "6.prems"]
      obtain r rest where
        a: "fst ?sub = (s @ [?row]) @ r"
        and b: "spec_rows (?name @ (if sType = ''Object'' then ''.'' else ''[].''))
                 (spec_fields (Type f)) = r @ rest"
        and c: "snd ?sub = None \<longrightarrow> rest = []"
        by auto
      have run: "writeStructField w s namePrefix f = ?sub"
        using Inr wr True by (auto simp: writeStructField_unfold)
      have x: "spec_rows namePrefix [f] = (?row # r) @ rest"
        using Inr True b by (auto simp: Let_def)
      have y: "fst (writeStructField w s namePrefix f) = s @ (?row # r)"
        using run a by simp
      have z: "snd (writeStructField w s namePrefix f) = None \<longrightarrow> rest = []"
        using run c by simp
      show ?thesis
      proof (intro exI conjI)
        show "fst (writeStructField w s namePrefix f) = s @ (?row # r)" by (rule y)
        show "spec_rows namePrefix [f] = (?row # r) @ rest" by (rule x)
        show "snd (writeStructField w s namePrefix f) = None \<longrightarrow> rest = []" by (rule z)
      qed
    next
      case False
      have run: "writeStructField w s namePrefix f = (s @ [?row], None)"
        using Inr wr False by (auto simp: writeStructField_unfold)
      have x: "spec_rows namePrefix [f] = [?row] @ []"
        using Inr False by (auto simp: Let_def)
      have y: "fst (writeStructField w s namePrefix f) = s @ [?row]"
        using run by simp
      show ?thesis
      proof (intro exI conjI)
        show "fst (writeStructField w s namePrefix f) = s @ [?row]" by (rule y)
        show "spec_rows namePrefix [f] = [?row] @ []" by (rule x)
        show "snd (writeStructField w s namePrefix f) = None \<longrightarrow> [] = []" by simp
      qed
    qed
  qed
qed

text \<open>Whatever happens, that sink only grows.\<close>

lemma chunkSink_extends:
  "w = chunkSink \<Longrightarrow> \<exists>rest. fst (writeStructFields w s p t) = s @ rest"
  "w = chunkSink \<Longrightarrow> \<exists>rest. fst (fieldsLoop w s p fs) = s @ rest"
  "w = chunkSink \<Longrightarrow> \<exists>rest. fst (writeStructField w s p f) = s @ rest"
proof (induction w s p t and w s p fs and w s p f
        rule: writeStructFields_fieldsLoop_writeStructField.induct)
  case (5 w s namePrefix f fs)
  obtain s1 e where f: "writeStructField w s namePrefix f = (s1, e)"
    by (cases "writeStructField w s namePrefix f")
  from "5.IH"(1)[OF "5.prems"] f obtain r1 where s1: "s1 = s @ r1" by auto
  show ?case
  proof (cases e)
    case None
    from "5.IH"(2)[OF f[symmetric] None "5.prems"] obtain r2
      where "fst (fieldsLoop w s1 namePrefix fs) = s1 @ r2" by auto
    with f None s1 show ?thesis by simp
  next
    case (Some err)
    with f s1 show ?thesis by simp
  qed
next
  case (6 w s namePrefix f)
  show ?case
  proof (cases "structFieldType (Type f) (fieldParts f)")
    case (Inl e)
    then show ?thesis by (simp add: writeStructField_unsupported)
  next
    case (Inr sType)
    let ?name = "namePrefix @ structFieldName f (fieldParts f)"
    let ?row = "fieldRow ?name sType
                  (structFieldAttributes (contains (fieldParts f) ''readonly'')
                     (contains (fieldParts f) ''omitempty''))
                  (structDescription f)"
    have wr: "w s ?row = (s @ [?row], None)"
      using "6.prems" by (simp add: chunkSink_def)
    show ?thesis
    proof (cases "sType = ''Object'' \<or> sType = ''Array''")
      case True
      from "6.IH"[OF refl refl Inr refl refl wr[symmetric] refl True "6.prems"]
      obtain r where "fst (writeStructFields w (s @ [?row])
                   (?name @ (if sType = ''Object'' then ''.'' else ''[].'')) (Type f))
                 = (s @ [?row]) @ r"
        by auto
      then show ?thesis using Inr wr True by (auto simp: writeStructField_unfold)
    next
      case False
      then show ?thesis using Inr wr by (auto simp: writeStructField_unfold)
    qed
  qed
qed simp_all

text \<open>On that sink, a run ends without error exactly when the type can be rendered.\<close>

lemma spec_renders_derefPtr: "spec_renders (derefPtr t) = spec_renders t"
  by (induction t rule: derefPtr.induct) simp_all

lemma spec_field_renders_unfold:
  "spec_field_renders f =
     (case structFieldType (Type f) (fieldParts f) of
        Inl err \<Rightarrow> False
      | Inr kind \<Rightarrow> if kind = ''Object'' \<or> kind = ''Array'' then spec_renders (Type f) else True)"
  by (cases f) (auto split: sum.splits)

lemma render_succeeds:
  "w = chunkSink \<Longrightarrow> (snd (writeStructFields w s p t) = None) = spec_renders t"
  "w = chunkSink \<Longrightarrow> (snd (fieldsLoop w s p fs) = None) = list_all spec_field_renders fs"
  "w = chunkSink \<Longrightarrow> (snd (writeStructField w s p f) = None) = spec_field_renders f"
proof (induction w s p t and w s p fs and w s p f
        rule: writeStructFields_fieldsLoop_writeStructField.induct)
  case (5 w s namePrefix f fs)
  obtain s1 e where f: "writeStructField w s namePrefix f = (s1, e)"
    by (cases "writeStructField w s namePrefix f")
  from "5.IH"(1)[OF "5.prems"] f have first: "(e = None) = spec_field_renders f" by simp
  show ?case
  proof (cases e)
    case None
    from "5.IH"(2)[OF f[symmetric] None "5.prems"]
    have "(snd (fieldsLoop w s1 namePrefix fs) = None) = list_all spec_field_renders fs" .
    with f None first show ?thesis by simp
  next
    case (Some err)
    with f first show ?thesis by simp
  qed
next
  case (6 w s namePrefix f)
  show ?case
  proof (cases "structFieldType (Type f) (fieldParts f)")
    case (Inl e)
    then show ?thesis
      by (simp add: writeStructField_unsupported spec_field_renders_unfold)
  next
    case (Inr sType)
    let ?name = "namePrefix @ structFieldName f (fieldParts f)"
    let ?row = "fieldRow ?name sType
                  (structFieldAttributes (contains (fieldParts f) ''readonly'')
                     (contains (fieldParts f) ''omitempty''))
                  (structDescription f)"
    have wr: "w s ?row = (s @ [?row], None)"
      using "6.prems" by (simp add: chunkSink_def)
    show ?thesis
    proof (cases "sType = ''Object'' \<or> sType = ''Array''")
      case True
      from "6.IH"[OF refl refl Inr refl refl wr[symmetric] refl True "6.prems"]
      have "(snd (writeStructFields w (s @ [?row])
                   (?name @ (if sType = ''Object'' then ''.'' else ''[].'')) (Type f)) = None)
            = spec_renders (Type f)" .
      then show ?thesis
        using Inr wr True by (auto simp: writeStructField_unfold spec_field_renders_unfold)
    next
      case False
      then show ?thesis
        using Inr wr by (auto simp: writeStructField_unfold spec_field_renders_unfold)
    qed
  qed
qed simp_all

text \<open>Hence the whole result of a run on a type that can be rendered.\<close>

lemma rendered_rows:
  assumes "spec_renders t"
  shows "writeStructFields chunkSink s p t = (s @ spec_rows p (spec_fields t), None)"
proof -
  have ok: "snd (writeStructFields chunkSink s p t) = None"
    using render_succeeds(1)[OF refl, of s p t] assms by simp
  from rows_prefix(1)[OF refl, of s p t] obtain written rest where
    a: "fst (writeStructFields chunkSink s p t) = s @ written"
    and b: "spec_rows p (spec_fields t) = written @ rest"
    and c: "snd (writeStructFields chunkSink s p t) = None \<longrightarrow> rest = []"
    by (elim exE conjE)
  from ok c have "rest = []" by simp
  with a b have "fst (writeStructFields chunkSink s p t) = s @ spec_rows p (spec_fields t)"
    by simp
  with ok show ?thesis by (simp add: prod_eq_iff)
qed

lemma first_chunk_is_row:
  assumes "structFieldType (Type f) (fieldParts f) = Inr sType"
  shows "\<exists>rest. fst (writeStructField chunkSink s p f) =
           s @ fieldRow (p @ structFieldName f (fieldParts f)) sType
                 (structFieldAttributes (contains (fieldParts f) ''readonly'')
                    (contains (fieldParts f) ''omitempty''))
                 (structDescription f) # rest"
proof -
  let ?row = "fieldRow (p @ structFieldName f (fieldParts f)) sType
                 (structFieldAttributes (contains (fieldParts f) ''readonly'')
                    (contains (fieldParts f) ''omitempty''))
                 (structDescription f)"
  show ?thesis
  proof (cases "sType = ''Object'' \<or> sType = ''Array''")
    case True
    from chunkSink_extends(1)[OF refl, of "s @ [?row]"
          "p @ structFieldName f (fieldParts f) @ (if sType = ''Object'' then ''.'' else ''[].'')"
          "Type f"]
    obtain r where "fst (writeStructFields chunkSink (s @ [?row])
          (p @ structFieldName f (fieldParts f) @ (if sType = ''Object'' then ''.'' else ''[].''))
          (Type f)) = (s @ [?row]) @ r"
      by auto
    then show ?thesis using assms True by (auto simp: writeStructField_unfold chunkSink_def)
  next
    case False
    then show ?thesis using assms by (auto simp: writeStructField_unfold chunkSink_def)
  qed
qed

subsection \<open>Splitting at commas\<close>

lemma Split_nonempty: "Split s c \<noteq> []"
  by (induction s) (auto split: list.splits)

lemma Split_hd: "hd (Split s c) = takeWhile (\<lambda>x. x \<noteq> c) s"
  using Split_nonempty[of _ c] by (induction s) (auto split: list.splits)

lemma Join_Cons: "ps \<noteq> [] \<Longrightarrow> Join (p # ps) sep = p @ sep @ Join ps sep"
  by (cases ps) simp_all

lemma Join_Split: "Join (Split s c) [c] = s"
proof (induction s)
  case Nil
  then show ?case by simp
next
  case (Cons a s)
  show ?case
  proof (cases "a = c")
    case True
    then show ?thesis using Cons Split_nonempty[of s c] by (simp add: Join_Cons)
  next
    case False
    obtain p ps where sp: "Split s c = p # ps"
      using Split_nonempty[of s c] by (cases "Split s c") auto
    with Cons False show ?thesis by (cases ps) auto
  qed
qed

lemma Split_parts_no_sep: "p \<in> set (Split s c) \<Longrightarrow> c \<notin> set p"
  by (induction s arbitrary: p) (auto split: list.splits if_splits)

section \<open>The table renderer: the properties\<close>

text \<open>
  C2, at a concrete input. The field \<^verbatim>\<open>Meta *Info\<close> has a named structure behind its
  pointer and no \<^verbatim>\<open>embed\<close> flag; the Type cell of its row reads \<^verbatim>\<open>Info\<close>, not
  \<^verbatim>\<open>Object\<close>.
\<close>

theorem named_struct_cell_counterexample:
  "writeStructField chunkSink [] [] namedField = ([''| Meta | Info  |  |'' @ [LF]], None)
   \<and> structFieldType (Type namedField) (fieldParts namedField) \<noteq> Inr ''Object''"
  by (simp add: namedField_def table_defs)

text \<open>
  C2, as the code has it. For every field whose type, once its pointers are unwrapped,
  is a named structure, and whose tag has no \<^verbatim>\<open>embed\<close> flag, the kind that
  \<open>structFieldType\<close> returns is the name of that type, and the row that
  \<open>writeStructField\<close> writes first carries this name in its Type cell.
\<close>

theorem named_struct_cell_is_type_name:
  assumes "derefPtr (Type f) = Struct n fs" and "n \<noteq> []"
    and "\<not> contains (fieldParts f) ''embed''"
  shows "structFieldType (Type f) (fieldParts f) = Inr n \<and>
         (\<exists>rest. fst (writeStructField chunkSink s p f) =
            s @ fieldRow (p @ structFieldName f (fieldParts f)) n
                  (structFieldAttributes (contains (fieldParts f) ''readonly'')
                     (contains (fieldParts f) ''omitempty''))
                  (structDescription f) # rest)"
proof -
  have t: "structFieldType (Type f) (fieldParts f) = Inr n"
    using structFieldType_derefPtr[of "Type f" "fieldParts f"] assms by simp
  with first_chunk_is_row[OF t] show ?thesis by simp
qed

theorem named_struct_cell_is_type_name_witness:
  "derefPtr (Type namedField) = Struct ''Info'' [Field ''X'' [] (Basic IntK ''int'')]
   \<and> ''Info'' \<noteq> [] \<and> \<not> contains (fieldParts namedField) ''embed''
   \<and> structFieldType (Type namedField) (fieldParts namedField) = Inr ''Info''"
  using named_struct_cell_is_type_name
          [of namedField "''Info''" "[Field ''X'' [] (Basic IntK ''int'')]" "[]" "[]"]
  by (simp add: namedField_def table_defs)

text \<open>
  C10, at the failing input. The field \<^verbatim>\<open>Meta Object\<close>, of the named structure
  \<^verbatim>\<open>type Object struct { X int }\<close> and without \<^verbatim>\<open>embed\<close>, gives two rows: its own
  and that of the field \<^verbatim>\<open>X\<close> of its type. The name of the type, returned as the
  kind, is taken for the marker \<^verbatim>\<open>Object\<close>; a type called \<^verbatim>\<open>Array\<close> is entered in
  the same way, under the prefix with \<^verbatim>\<open>[].\<close>.
\<close>

theorem named_struct_called_Object_entered:
  "writeStructField chunkSink [] [] objectNamedField =
     ([''| Meta | Object  |  |'' @ [LF], ''| Meta.X | number  |  |'' @ [LF]], None)
   \<and> writeStructField chunkSink [] [] arrayNamedField =
     ([''| Meta | Array  |  |'' @ [LF], ''| Meta[].X | number  |  |'' @ [LF]], None)"
  by (simp add: objectNamedField_def arrayNamedField_def table_defs)

text \<open>
  A named structure with any other name is not entered: for every field whose type,
  once its pointers are unwrapped, is a named structure called neither \<^verbatim>\<open>Object\<close> nor
  \<^verbatim>\<open>Array\<close>, and whose tag has no \<^verbatim>\<open>embed\<close> flag, \<open>writeStructField\<close> is exactly
  one write, that of the row of the field, whatever the sink.
\<close>

theorem named_struct_single_row:
  assumes "derefPtr (Type f) = Struct n fs" and "n \<noteq> []"
    and "n \<noteq> ''Object''" and "n \<noteq> ''Array''"
    and "\<not> contains (fieldParts f) ''embed''"
  shows "writeStructField w s p f =
           w s (fieldRow (p @ structFieldName f (fieldParts f)) n
                  (structFieldAttributes (contains (fieldParts f) ''readonly'')
                     (contains (fieldParts f) ''omitempty''))
                  (structDescription f))"
proof -
  have t: "structFieldType (Type f) (fieldParts f) = Inr n"
    using structFieldType_derefPtr[of "Type f" "fieldParts f"] assms by simp
  show ?thesis
    using assms(3,4)
    by (simp add: writeStructField_unfold[OF t] split: prod.splits option.splits)
qed

theorem named_struct_single_row_witness:
  "derefPtr (Type namedField) = Struct ''Info'' [Field ''X'' [] (Basic IntK ''int'')]
   \<and> ''Info'' \<noteq> [] \<and> ''Info'' \<noteq> ''Object'' \<and> ''Info'' \<noteq> ''Array''
   \<and> \<not> contains (fieldParts namedField) ''embed''
   \<and> writeStructField chunkSink [] [] namedField = ([''| Meta | Info  |  |'' @ [LF]], None)"
  using named_struct_single_row
          [of namedField "''Info''" "[Field ''X'' [] (Basic IntK ''int'')]" chunkSink "[]" "[]"]
  by (simp add: namedField_def table_defs)

text \<open>
  C8, at a concrete input. The field \<^verbatim>\<open>Hello string\<close> has neither flag; its row keeps
  the blank that separates the kind from the attributes, so two blanks stand before the
  bar that closes the Type cell.
\<close>

theorem attributes_space_counterexample:
  "fst (writeStructField chunkSink [] [] plainField) = [''| Hello | string  |  |'' @ [LF]]
   \<and> fst (writeStructField chunkSink [] [] plainField) \<noteq> [''| Hello | string |  |'' @ [LF]]"
  by (simp add: plainField_def table_defs)

text \<open>
  C8, as the code has it. In every row, the kind is followed by one blank and then by
  \<^verbatim>\<open>(readonly optional)\<close> when the tag has both \<^verbatim>\<open>readonly\<close> and \<^verbatim>\<open>omitempty\<close>,
  by \<^verbatim>\<open>(readonly)\<close> or \<^verbatim>\<open>(optional)\<close> when it has one of them, and by nothing when
  it has neither: the parenthesis is left out, the blank before it is not.
\<close>

theorem attributes_rendered:
  assumes "structFieldType (Type f) (fieldParts f) = Inr sType"
    and "readonly = contains (fieldParts f) ''readonly''"
    and "optional = contains (fieldParts f) ''omitempty''"
  shows "\<exists>rest. fst (writeStructField chunkSink s p f) =
           s @ (''| '' @ p @ structFieldName f (fieldParts f) @ '' | '' @ sType @ '' '' @
                  (if readonly \<and> optional then ''(readonly optional)''
                   else if readonly then ''(readonly)''
                   else if optional then ''(optional)''
                   else []) @
                '' | '' @ structDescription f @ '' |'' @ [LF]) # rest"
proof -
  have "structFieldAttributes readonly optional =
          (if readonly \<and> optional then ''(readonly optional)''
           else if readonly then ''(readonly)''
           else if optional then ''(optional)''
           else [])"
    by (simp add: structFieldAttributes_def)
  with first_chunk_is_row[OF assms(1), of s p] assms(2,3) show ?thesis
    by (simp add: fieldRow_def)
qed

theorem attributes_rendered_witness:
  "structFieldType (Type taggedField) (fieldParts taggedField) = Inr ''string''
   \<and> contains (fieldParts taggedField) ''readonly''
   \<and> contains (fieldParts taggedField) ''omitempty''
   \<and> fst (writeStructField chunkSink [] [] taggedField) =
       [''| id | string (readonly optional) |  |'' @ [LF]]"
  using attributes_rendered[of taggedField "''string''" True True "[]" "[]"]
  by (simp add: taggedField_def table_defs)

text \<open>
  C7. The name and the flags of a field come from its tag \<^verbatim>\<open>doc\<close> when it has one and
  from its tag \<^verbatim>\<open>json\<close> otherwise; the tag is read as a list separated by commas
  (joining the parts with commas gives the tag back, and no part holds a comma); the
  name is the first element of the list, which is the tag up to its first comma, unless
  that is empty or \<^verbatim>\<open>-\<close>, in which case it is the declared name of the field as it
  stands; and this name, after the prefix, is the one in the row.
\<close>

theorem field_name_resolution:
  assumes "tag = (case Lookup (Tag f) ''doc'' of
                    Some d \<Rightarrow> d
                  | None \<Rightarrow> (case Lookup (Tag f) ''json'' of Some j \<Rightarrow> j | None \<Rightarrow> []))"
    and "first = takeWhile (\<lambda>c. c \<noteq> CHR '','') tag"
  shows "fieldParts f = Split tag (CHR '','')
       \<and> Join (fieldParts f) '','' = tag
       \<and> (\<forall>part \<in> set (fieldParts f). CHR '','' \<notin> set part)
       \<and> hd (fieldParts f) = first
       \<and> structFieldName f (fieldParts f) =
           (if first \<noteq> [] \<and> first \<noteq> ''-'' then first else Name f)
       \<and> (\<forall>sType. structFieldType (Type f) (fieldParts f) = Inr sType \<longrightarrow>
            (\<exists>rest. fst (writeStructField chunkSink s p f) =
               s @ fieldRow (p @ (if first \<noteq> [] \<and> first \<noteq> ''-'' then first else Name f))
                     sType
                     (structFieldAttributes (contains (fieldParts f) ''readonly'')
                        (contains (fieldParts f) ''omitempty''))
                     (structDescription f) # rest))"
proof -
  have parts: "fieldParts f = Split tag (CHR '','')"
    using assms(1) by (simp add: fieldParts_def Get_def split: option.splits)
  have joined: "Join (fieldParts f) '','' = tag"
    using Join_Split[of tag "CHR '',''"] parts by simp
  have nosep: "\<forall>part \<in> set (fieldParts f). CHR '','' \<notin> set part"
    using Split_parts_no_sep[of _ tag "CHR '',''"] parts by auto
  have hd: "hd (fieldParts f) = first"
    using parts assms(2) by (simp add: Split_hd)
  have name: "structFieldName f (fieldParts f) =
           (if first \<noteq> [] \<and> first \<noteq> ''-'' then first else Name f)"
    using hd Split_nonempty[of tag "CHR '',''"] parts by (simp add: structFieldName_def)
  have row: "\<forall>sType. structFieldType (Type f) (fieldParts f) = Inr sType \<longrightarrow>
            (\<exists>rest. fst (writeStructField chunkSink s p f) =
               s @ fieldRow (p @ (if first \<noteq> [] \<and> first \<noteq> ''-'' then first else Name f))
                     sType
                     (structFieldAttributes (contains (fieldParts f) ''readonly'')
                        (contains (fieldParts f) ''omitempty''))
                     (structDescription f) # rest)"
    using first_chunk_is_row[of f _ s p] name by simp
  from parts joined nosep hd name row show ?thesis by blast
qed

theorem field_name_resolution_witness:
  "Lookup (Tag taggedField) ''doc'' = Some ''id,readonly,omitempty''
   \<and> fieldParts taggedField = [''id'', ''readonly'', ''omitempty'']
   \<and> structFieldName taggedField (fieldParts taggedField) = ''id''"
proof -
  have tag: "''id,readonly,omitempty'' =
               (case Lookup (Tag taggedField) ''doc'' of
                  Some d \<Rightarrow> d
                | None \<Rightarrow> (case Lookup (Tag taggedField) ''json'' of
                              Some j \<Rightarrow> j | None \<Rightarrow> []))"
    by (simp add: taggedField_def Lookup_def)
  have first: "''id'' = takeWhile (\<lambda>c. c \<noteq> CHR '','') ''id,readonly,omitempty''"
    by simp
  from field_name_resolution[OF tag first, of "[]" "[]"]
  have parts: "fieldParts taggedField = Split ''id,readonly,omitempty'' (CHR '','')"
    and name: "structFieldName taggedField (fieldParts taggedField) =
                 (if ''id'' \<noteq> [] \<and> ''id'' \<noteq> ''-'' then ''id'' else Name taggedField)"
    by blast+
  from parts name show ?thesis by (simp add: taggedField_def Lookup_def)
qed

text \<open>
  C6. On the sink that keeps its chunks, \<open>WriteStructTable\<close> ends without error
  exactly when the type can be rendered, and then it has appended the table header and
  the rows in the order of the specification: the fields in the order of their
  declaration, each field of kind \<^verbatim>\<open>Object\<close> followed at once by its own fields
  under \<open>prefix + name + "."\<close>, each field of kind \<^verbatim>\<open>Array\<close> followed at once by the
  fields of its elements under \<open>prefix + name + "[]."\<close>, before any later field of the
  same structure. So \<open>writeStructField\<close>, on a field of kind \<^verbatim>\<open>Object\<close> or
  \<^verbatim>\<open>Array\<close> whose type can be rendered, writes the row of the field and right after
  it the rows of the fields of the type under the longer prefix. And whatever the type,
  what is appended is an initial segment of that listing.
\<close>

theorem rows_in_declaration_order:
  "(snd (WriteStructTable chunkSink s v) = None) = spec_renders v
   \<and> (spec_renders v \<longrightarrow>
        WriteStructTable chunkSink s v =
          (s @ tableHeader # spec_rows [] (spec_fields v), None))
   \<and> (structFieldType (Type f) (fieldParts f) = Inr ''Object'' \<and> spec_renders (Type f) \<longrightarrow>
        writeStructField chunkSink s p f =
          (s @ fieldRow (p @ structFieldName f (fieldParts f)) ''Object''
                 (structFieldAttributes (contains (fieldParts f) ''readonly'')
                    (contains (fieldParts f) ''omitempty''))
                 (structDescription f)
             # spec_rows (p @ structFieldName f (fieldParts f) @ ''.'') (spec_fields (Type f)),
           None))
   \<and> (structFieldType (Type f) (fieldParts f) = Inr ''Array'' \<and> spec_renders (Type f) \<longrightarrow>
        writeStructField chunkSink s p f =
          (s @ fieldRow (p @ structFieldName f (fieldParts f)) ''Array''
                 (structFieldAttributes (contains (fieldParts f) ''readonly'')
                    (contains (fieldParts f) ''omitempty''))
                 (structDescription f)
             # spec_rows (p @ structFieldName f (fieldParts f) @ ''[].'') (spec_fields (Type f)),
           None))
   \<and> (\<exists>written rest.
        fst (WriteStructTable chunkSink s v) = s @ written \<and>
        tableHeader # spec_rows [] (spec_fields v) = written @ rest \<and>
        (snd (WriteStructTable chunkSink s v) = None \<longrightarrow> rest = []))"
proof (intro conjI impI)
  have run: "WriteStructTable chunkSink s v =
               writeStructFields chunkSink (s @ [tableHeader]) [] (derefPtr v)"
    by (simp add: WriteStructTable_def chunkSink_def)
  show "(snd (WriteStructTable chunkSink s v) = None) = spec_renders v"
    using render_succeeds(1)[OF refl, of "s @ [tableHeader]" "[]" "derefPtr v"] run
    by (simp add: spec_renders_derefPtr)
  show "WriteStructTable chunkSink s v =
          (s @ tableHeader # spec_rows [] (spec_fields v), None)"
    if "spec_renders v"
    using rendered_rows[of "derefPtr v" "s @ [tableHeader]" "[]"] that run
    by (simp add: spec_renders_derefPtr spec_fields_derefPtr)
  show "\<exists>written rest.
        fst (WriteStructTable chunkSink s v) = s @ written \<and>
        tableHeader # spec_rows [] (spec_fields v) = written @ rest \<and>
        (snd (WriteStructTable chunkSink s v) = None \<longrightarrow> rest = [])"
  proof -
    from rows_prefix(1)[OF refl, of "s @ [tableHeader]" "[]" "derefPtr v"]
    obtain r rest where
      a: "fst (writeStructFields chunkSink (s @ [tableHeader]) [] (derefPtr v))
            = (s @ [tableHeader]) @ r"
      and b: "spec_rows [] (spec_fields v) = r @ rest"
      and c: "snd (writeStructFields chunkSink (s @ [tableHeader]) [] (derefPtr v)) = None
                \<longrightarrow> rest = []"
      by (auto simp: spec_fields_derefPtr)
    have x: "fst (WriteStructTable chunkSink s v) = s @ (tableHeader # r)"
      using run a by simp
    have y: "tableHeader # spec_rows [] (spec_fields v) = (tableHeader # r) @ rest"
      using b by simp
    have z: "snd (WriteStructTable chunkSink s v) = None \<longrightarrow> rest = []"
      using run c by simp
    show ?thesis
    proof (intro exI conjI)
      show "fst (WriteStructTable chunkSink s v) = s @ (tableHeader # r)" by (rule x)
      show "tableHeader # spec_rows [] (spec_fields v) = (tableHeader # r) @ rest" by (rule y)
      show "snd (WriteStructTable chunkSink s v) = None \<longrightarrow> rest = []" by (rule z)
    qed
  qed
next
  assume h: "structFieldType (Type f) (fieldParts f) = Inr ''Object'' \<and> spec_renders (Type f)"
  then have t: "structFieldType (Type f) (fieldParts f) = Inr ''Object''"
    and r: "spec_renders (Type f)" by simp_all
  show "writeStructField chunkSink s p f =
          (s @ fieldRow (p @ structFieldName f (fieldParts f)) ''Object''
                 (structFieldAttributes (contains (fieldParts f) ''readonly'')
                    (contains (fieldParts f) ''omitempty''))
                 (structDescription f)
             # spec_rows (p @ structFieldName f (fieldParts f) @ ''.'') (spec_fields (Type f)),
           None)"
    by (simp add: writeStructField_unfold[OF t] chunkSink_def[of s] rendered_rows[OF r])
next
  assume h: "structFieldType (Type f) (fieldParts f) = Inr ''Array'' \<and> spec_renders (Type f)"
  then have t: "structFieldType (Type f) (fieldParts f) = Inr ''Array''"
    and r: "spec_renders (Type f)" by simp_all
  show "writeStructField chunkSink s p f =
          (s @ fieldRow (p @ structFieldName f (fieldParts f)) ''Array''
                 (structFieldAttributes (contains (fieldParts f) ''readonly'')
                    (contains (fieldParts f) ''omitempty''))
                 (structDescription f)
             # spec_rows (p @ structFieldName f (fieldParts f) @ ''[].'') (spec_fields (Type f)),
           None)"
    by (simp add: writeStructField_unfold[OF t] chunkSink_def[of s] rendered_rows[OF r])
qed

theorem rows_in_declaration_order_witness:
  "spec_renders exampleStruct
   \<and> WriteStructTable chunkSink [] exampleStruct =
       (tableHeader # spec_rows [] (spec_fields exampleStruct), None)
   \<and> spec_rows [] (spec_fields exampleStruct) =
      [''| Hello | string  | hello is a fine field |'' @ [LF],
       ''| World | number  |  |'' @ [LF],
       ''| Obj | Object  | nested field |'' @ [LF],
       ''| Obj.Hello | number  |  |'' @ [LF],
       ''| Obj.World | string  |  |'' @ [LF],
       ''| Array | Array  | array field |'' @ [LF],
       ''| Array[].Hello | number  |  |'' @ [LF],
       ''| Array[].World | string  |  |'' @ [LF]]"
proof -
  let ?rows = "[''| Hello | string  | hello is a fine field |'' @ [LF],
       ''| World | number  |  |'' @ [LF],
       ''| Obj | Object  | nested field |'' @ [LF],
       ''| Obj.Hello | number  |  |'' @ [LF],
       ''| Obj.World | string  |  |'' @ [LF],
       ''| Array | Array  | array field |'' @ [LF],
       ''| Array[].Hello | number  |  |'' @ [LF],
       ''| Array[].World | string  |  |'' @ [LF]]"
  have ok: "spec_renders exampleStruct"
    by (simp add: exampleStruct_def exampleFields_def fieldParts_def Lookup_def Get_def)
  have run: "WriteStructTable chunkSink [] exampleStruct = (tableHeader # ?rows, None)"
    by (simp add: exampleStruct_def exampleFields_def table_defs)
  note inst = rows_in_declaration_order[of "[]" exampleStruct plainField "[]"]
  from inst[THEN conjunct2, THEN conjunct1, THEN mp, OF ok]
  have full: "WriteStructTable chunkSink [] exampleStruct =
                ([] @ tableHeader # spec_rows [] (spec_fields exampleStruct), None)" .
  with run have "spec_rows [] (spec_fields exampleStruct) = ?rows" by simp
  with ok full show ?thesis by simp
qed

text \<open>
  A render that stops half-way: the element type of \<^verbatim>\<open>Tags []string\<close> has no fields,
  \<^verbatim>\<open>Elem()\<close> panics on it, and the rows written until then are the first rows of the
  listing.
\<close>

lemma render_stops_at_sequence_of_strings:
  "\<not> spec_renders brokenStruct
   \<and> WriteStructTable chunkSink [] brokenStruct =
     ([tableHeader, ''| A | number  |  |'' @ [LF], ''| Tags | Array  |  |'' @ [LF]], Some Panic)
   \<and> spec_rows [] (spec_fields brokenStruct) =
       [''| A | number  |  |'' @ [LF], ''| Tags | Array  |  |'' @ [LF],
        ''| B | number  |  |'' @ [LF]]"
  by (simp add: brokenStruct_def table_defs)

section \<open>Facts about the transport recorder\<close>

lemmas transport_defs =
  RoundTrip_def recordRequest_def recordResponse_def writeBody_def transport_def
  Write_def ReadAll_def Close_def NopCloser_def
  WriteSubset_def skipHeaders_def excluded_def headerLines_def headerValue_def isSpace_def
  ReplaceAll_def ValidHeaderFieldName_def isTokenRune_def fence_def
  exampleServer_def exampleRecorder_def exampleRequest_def exampleWorld_def










section \<open>The transport recorder: the properties\<close>




text \<open>
  C1, at a concrete input. The request is recorded, the server answers, and the last
  write of the response record (the twelfth of the call) fails: \<open>RoundTrip\<close> returns
  no response with the error.
\<close>

theorem response_record_failure_counterexample:
  "snd (snd (RoundTrip exampleServer scriptedSink exampleRecorder
               (exampleWorld (replicate 11 None @ [Some (GoError ''disk full'')]))
               exampleRequest))
   = (None, Some (GoError ''disk full''))"
  by (simp add: transport_defs eval_nat_numeral)

text \<open>
  C1, as the code has it. For every request whose record succeeds and whose transport
  call succeeds, if \<open>recordResponse\<close> returns an error, \<open>RoundTrip\<close> returns the nil
  response together with that error.
\<close>

theorem response_record_failure:
  assumes "recordRequest w t st req = (st1, req1, None)"
    and "transport DefaultTransport t (streams st1) req1 = (h, Inr resp)"
    and "recordResponse w t (st1\<lparr>streams := h, calls := calls st1 @ [req1]\<rparr>) resp
           = (st2, resp1, Some err)"
  shows "RoundTrip DefaultTransport w t st req = (st2, req1, None, Some err)"
  using assms by (simp add: RoundTrip_def)

theorem response_record_failure_witness:
  "RoundTrip exampleServer scriptedSink exampleRecorder
     (exampleWorld (replicate 6 None @ [Some (GoError ''no space left'')])) exampleRequest
   = (recordedWorld []
        \<lparr>streams := streams (recordedWorld []) @
                      [\<lparr>pending = ''{\"foo\": \"bar\"}'', failure = None, closed = False\<rparr>],
         calls := [exampleRequest\<lparr>Body := Some 1\<rparr>]\<rparr>,
      exampleRequest\<lparr>Body := Some 1\<rparr>, None, Some (GoError ''no space left''))"
proof -
  let ?e = "GoError ''no space left''"
  let ?st1 = "recordedWorld [Some ?e]"
  let ?req1 = "exampleRequest\<lparr>Body := Some 1\<rparr>"
  let ?h = "streams ?st1 @
              [\<lparr>pending = ''{\"foo\": \"bar\"}'', failure = None, closed = False\<rparr>]"
  let ?resp = "\<lparr>Header = [(''Date'', [''Mon, 01 Jan 2024 00:00:00 GMT'']),
                            (''Content-Type'', [''application/json''])],
                  Body = Some 2, Proto = ''HTTP/1.1'', Status = ''200 OK''\<rparr>"
  have a: "recordRequest scriptedSink exampleRecorder
             (exampleWorld (replicate 6 None @ [Some ?e])) exampleRequest
           = (?st1, ?req1, None)"
    by (simp add: transport_defs recordedWorld_def requestTranscript_def eval_nat_numeral)
  have b: "transport exampleServer exampleRecorder (streams ?st1) ?req1 = (?h, Inr ?resp)"
    by (simp add: transport_def exampleRecorder_def exampleServer_def recordedWorld_def)
  have c: "recordResponse scriptedSink exampleRecorder
             (?st1\<lparr>streams := ?h, calls := calls ?st1 @ [?req1]\<rparr>) ?resp
           = (recordedWorld []\<lparr>streams := ?h, calls := [?req1]\<rparr>, ?resp, Some ?e)"
    by (simp add: recordResponse_def Write_def exampleRecorder_def recordedWorld_def)
  from response_record_failure[OF a b c] show ?thesis by (simp add: recordedWorld_def)
qed

text \<open>
  C3, at the failing input. The sink accepts the preamble, the request line and the
  headers and refuses the body (its fourth write) with \<^verbatim>\<open>short write\<close>:
  \<open>recordRequest\<close> goes on, writes the closing fence and the postamble, and returns no
  error.
\<close>

theorem body_write_failure_swallowed:
  "case recordRequest scriptedSink exampleRecorder
          (exampleWorld [None, None, None, Some (GoError ''short write'')]) exampleRequest of
     (st, req, err) \<Rightarrow>
       err = None \<and>
       fst (sink st) =
         ''## Request'' @ [LF] @ fence @ [LF] @ ''GET /some_endpoint'' @ [LF] @
         ''Content-Type: application/json;charset=utf8'' @ [LF] @ [LF] @
         [LF] @ fence @ [LF] @ ''that was the request'' @ [LF]"
  by (simp add: transport_defs)

text \<open>
  C5, at the failing input. With the same sink, whose fourth write (the body of the
  request) fails, \<open>RoundTrip\<close> hands the request to the underlying transport and
  returns its response without an error.
\<close>

theorem transport_invoked_after_failed_write:
  "case RoundTrip exampleServer scriptedSink exampleRecorder
          (exampleWorld [None, None, None, Some (GoError ''short write'')]) exampleRequest of
     (st, req, resp, err) \<Rightarrow> calls st = [exampleRequest] \<and> resp \<noteq> None \<and> err = None"
  by (simp add: transport_defs)

text \<open>
  C4, at the failing input. The body \<^verbatim>\<open>some body\<close> is present and the sink refuses
  it. \<open>writeBody\<close> returns no error although nothing is written, the original stream is
  drained but not closed, and no stream is substituted; so \<open>RoundTrip\<close>, on the sink
  whose fourth write (the body of the request) fails, goes on and hands the request to
  the transport with the drained stream as its body, which reads as empty.
\<close>

theorem refused_body_left_drained:
  "writeBody scriptedSink (exampleWorld [Some (GoError ''short write'')]) (Some 0) =
     (\<lparr>sink = ([], []),
       streams = [\<lparr>pending = [], failure = None, closed = False\<rparr>],
       calls = []\<rparr>, Some 0, None)
   \<and> (case RoundTrip exampleServer scriptedSink exampleRecorder
              (exampleWorld [None, None, None, Some (GoError ''short write'')])
              exampleRequest of
         (st, req, resp, err) \<Rightarrow>
           err = None \<and> map Body (calls st) = [Some 0] \<and>
           streams st ! 0 = \<lparr>pending = [], failure = None, closed = False\<rparr>)"
  by (simp add: transport_defs)

text \<open>
  On the path without failure the body is replayed. If a body is present, its stream
  delivers its bytes without failure and the sink accepts them, then \<open>writeBody\<close> has
  written exactly these bytes in one write, has closed the original stream, and has
  substituted a new stream, different from the original, whose read to the end yields
  the same bytes, whether there are any or not. If no body is present, nothing is
  written and nothing is substituted.
\<close>

theorem body_replay:
  assumes "a < length (streams st)"
    and "failure (streams st ! a) = None"
    and "data = pending (streams st ! a)"
    and "w (sink st) data = (s', None)"
    and "st' = st\<lparr>sink := s',
                   streams := (streams st)[a := (streams st ! a)\<lparr>pending := [], closed := True\<rparr>]
                              @ [\<lparr>pending = data, failure = None, closed = False\<rparr>]\<rparr>"
  shows "writeBody w st (Some a) = (st', Some (length (streams st)), None)
       \<and> length (streams st) \<noteq> a
       \<and> closed (streams st' ! a)
       \<and> ReadAll (length (streams st)) st' =
           (st'\<lparr>streams := (streams st')[length (streams st) :=
                               \<lparr>pending = [], failure = None, closed = False\<rparr>]\<rparr>, data, None)
       \<and> writeBody w st None = (st, None, None)"
proof -
  have wb: "writeBody w st (Some a) = (st', Some (length (streams st)), None)"
    using assms by (simp add: writeBody_def ReadAll_def Write_def Close_def NopCloser_def)
  have cl: "closed (streams st' ! a)"
    using assms(1,5) by (simp add: nth_append)
  have rd: "ReadAll (length (streams st)) st' =
           (st'\<lparr>streams := (streams st')[length (streams st) :=
                               \<lparr>pending = [], failure = None, closed = False\<rparr>]\<rparr>, data, None)"
    using assms(5) by (simp add: ReadAll_def nth_append)
  have nb: "writeBody w st None = (st, None, None)"
    by (simp add: writeBody_def)
  from wb cl rd nb assms(1) show ?thesis by simp
qed

theorem body_replay_witness:
  "writeBody scriptedSink (exampleWorld []) (Some 0) =
     (\<lparr>sink = (''some body'', []),
       streams = [\<lparr>pending = [], failure = None, closed = True\<rparr>,
                  \<lparr>pending = ''some body'', failure = None, closed = False\<rparr>],
       calls = []\<rparr>, Some 1, None)"
proof -
  have 1: "0 < length (streams (exampleWorld []))" by (simp add: exampleWorld_def)
  have 2: "failure (streams (exampleWorld []) ! 0) = None" by (simp add: exampleWorld_def)
  have 3: "''some body'' = pending (streams (exampleWorld []) ! 0)"
    by (simp add: exampleWorld_def)
  have 4: "scriptedSink (sink (exampleWorld [])) ''some body'' = ((''some body'', []), None)"
    by (simp add: exampleWorld_def)
  from body_replay[of 0 "exampleWorld []" "''some body''" scriptedSink "(''some body'', [])",
                   OF 1 2 3 4 refl]
  show ?thesis by (simp add: exampleWorld_def)
qed

end
